theory Spec2Isabelle
  imports Complex_Main "HOL-Library.Multiset"
begin

section \<open>The feedback analyzer (src/analyzer.mjs)\<close>

text \<open>
  The program sends one text to two remote models, reads the JSON answers and maps
  them to a feedback bucket. The remote service is a parameter of the model: a
  function from the request (URL and payload) to what \<^verbatim>\<open>fetch\<close> yields. Every
  \<^verbatim>\<open>throw\<close> and every runtime \<^verbatim>\<open>TypeError\<close> of the source is a value \<open>Inl e\<close>.
\<close>

subsection \<open>JavaScript values\<close>

text \<open>
  What \<^verbatim>\<open>res.json()\<close> can return, and \<open>Undefined\<close> for a property that is not
  there. An object is the list of its own properties, each key once. A number is a real: the
  source only compares scores (\<^verbatim>\<open>>\<close>, \<^verbatim>\<open>>=\<close>, the sign of \<^verbatim>\<open>b - a\<close>), and the finite
  doubles compare as the reals they are. A decimal numeral, in a response or in the
  source (\<^verbatim>\<open>0.35\<close>), is taken at its exact value; the rounding of the numeral to the
  nearest double, and numbers too large for a double, are not modelled.
\<close>

datatype jsval =
    Undefined
  | Null
  | Bool bool
  | Num real
  | Str string
  | Arr "jsval list"
  | Obj "(string \<times> jsval) list"

text \<open>
  The errors of the program. \<open>HttpError status body\<close> is the
  \<^verbatim>\<open>new Error(`HTTP ${res.status} -> ${err}`)\<close> of \<^verbatim>\<open>callModel\<close>; \<open>FetchFailed\<close> is
  a rejected \<^verbatim>\<open>fetch\<close>; \<open>SyntaxError\<close> is \<^verbatim>\<open>res.json()\<close> on a body that is not JSON;
  \<open>TypeError\<close> is the runtime's (a property read on \<^verbatim>\<open>null\<close> or \<^verbatim>\<open>undefined\<close>, a
  call of something that is not a function).

  \<open>Unsupported\<close> is not an error of the program: the model stops with it where
  the source would coerce a score that is neither a number nor \<^verbatim>\<open>undefined\<close> (a
  string, a boolean, \<^verbatim>\<open>null\<close>, an array or an object) to a number. Such responses
  are outside the model, and no theorem below speaks about them.
\<close>

datatype error =
    FetchFailed
  | HttpError nat string
  | SyntaxError
  | TypeError
  | Unsupported

text \<open>\<^verbatim>\<open>{ label, score }\<close>: a SentimentResult and an IntentCandidate alike. The
  label is any value; the score is a number or \<^verbatim>\<open>undefined\<close> (\<open>None\<close>).\<close>

record scored =
  label :: jsval
  score :: "real option"

subsection \<open>Property reads and operators\<close>

text \<open>A \<^verbatim>\<open>throw\<close> or a rejected \<^verbatim>\<open>await\<close> ends the function: the rest runs only on a
  value.\<close>

definition and_then :: "error + 'a \<Rightarrow> ('a \<Rightarrow> error + 'b) \<Rightarrow> error + 'b" where
  "and_then m f = (case m of Inl e \<Rightarrow> Inl e | Inr x \<Rightarrow> f x)"

text \<open>\<^verbatim>\<open>v.k\<close> for the keys the source reads (label, score, labels, scores), none of
  which a prototype defines: a TypeError on \<^verbatim>\<open>null\<close> and \<^verbatim>\<open>undefined\<close>, the own
  property of an object, \<^verbatim>\<open>undefined\<close> otherwise.\<close>

fun field :: "jsval \<Rightarrow> string \<Rightarrow> jsval" where
  "field (Obj kvs) k = (case map_of kvs k of None \<Rightarrow> Undefined | Some v \<Rightarrow> v)"
| "field _ k = Undefined"

definition get_prop :: "jsval \<Rightarrow> string \<Rightarrow> error + jsval" where
  "get_prop v k = (if v = Undefined \<or> v = Null then Inl TypeError else Inr (field v k))"

fun isArray :: "jsval \<Rightarrow> bool" where
  "isArray (Arr xs) = True"
| "isArray _ = False"

text \<open>\<^verbatim>\<open>xs[i]\<close> on an array: \<^verbatim>\<open>undefined\<close> out of range.\<close>

definition elem_at :: "jsval list \<Rightarrow> nat \<Rightarrow> jsval" where
  "elem_at xs i = (if i < length xs then xs ! i else Undefined)"

definition digit_char :: "nat \<Rightarrow> char" where
  "digit_char d = char_of (48 + d)"

fun show_nat :: "nat \<Rightarrow> string" where
  "show_nat n =
     (if n < 10 then [digit_char n] else show_nat (n div 10) @ [digit_char (n mod 10)])"

declare show_nat.simps [simp del]

text \<open>\<^verbatim>\<open>v[i]\<close> on any value: an array element, a one-character string, the own
  property of an object whose key is the decimal numeral of \<open>i\<close>.\<close>

fun index :: "jsval \<Rightarrow> nat \<Rightarrow> error + jsval" where
  "index Undefined i = Inl TypeError"
| "index Null i = Inl TypeError"
| "index (Arr xs) i = Inr (elem_at xs i)"
| "index (Str s) i = Inr (if i < length s then Str [s ! i] else Undefined)"
| "index (Obj kvs) i = Inr (field (Obj kvs) (show_nat i))"
| "index (Bool b) i = Inr Undefined"
| "index (Num r) i = Inr Undefined"

text \<open>Truthiness, for \<^verbatim>\<open>x || []\<close>.\<close>

fun truthy :: "jsval \<Rightarrow> bool" where
  "truthy Undefined = False"
| "truthy Null = False"
| "truthy (Bool b) = b"
| "truthy (Num r) = (r \<noteq> 0)"
| "truthy (Str s) = (s \<noteq> [])"
| "truthy (Arr xs) = True"
| "truthy (Obj kvs) = True"

definition or_empty :: "jsval \<Rightarrow> jsval" where
  "or_empty v = (if truthy v then v else Arr [])"

text \<open>A score as the operators see it: a number, or \<^verbatim>\<open>undefined\<close> (which
  \<^verbatim>\<open>ToNumber\<close> turns into NaN).\<close>

fun as_score :: "jsval \<Rightarrow> error + real option" where
  "as_score Undefined = Inr None"
| "as_score (Num r) = Inr (Some r)"
| "as_score _ = Inl Unsupported"

text \<open>\<^verbatim>\<open>a > b\<close>, \<^verbatim>\<open>a >= b\<close> and \<^verbatim>\<open>a - b\<close> on scores. A comparison with NaN is false;
  a difference with NaN is NaN (\<open>None\<close>).\<close>

fun js_gt :: "real option \<Rightarrow> real option \<Rightarrow> bool" where
  "js_gt (Some x) (Some y) = (x > y)"
| "js_gt _ _ = False"

fun js_ge :: "real option \<Rightarrow> real \<Rightarrow> bool" where
  "js_ge (Some x) y = (x \<ge> y)"
| "js_ge None y = False"

fun js_sub :: "real option \<Rightarrow> real option \<Rightarrow> real option" where
  "js_sub (Some x) (Some y) = Some (x - y)"
| "js_sub _ _ = None"

text \<open>\<^verbatim>\<open>Array.prototype.includes\<close>.\<close>

definition js_includes :: "'a list \<Rightarrow> 'a \<Rightarrow> bool" where
  "js_includes xs x = (x \<in> set xs)"

text \<open>
  \<^verbatim>\<open>Array.prototype.sort(comparefn)\<close>. ECMAScript makes the sort stable and fixes its
  result whenever the comparator is consistent; a comparator result that is NaN counts
  as 0. The model is the stable insertion sort: an element moves behind another only
  if the comparator says so (a result above 0). For a comparator that is not
  consistent ECMAScript leaves the order to the engine, and the model is one such
  order.
\<close>

fun sort_insert :: "('a \<Rightarrow> 'a \<Rightarrow> real option) \<Rightarrow> 'a \<Rightarrow> 'a list \<Rightarrow> 'a list" where
  "sort_insert cmp x [] = [x]"
| "sort_insert cmp x (y # ys) =
     (if (case cmp x y of None \<Rightarrow> 0 | Some v \<Rightarrow> v) > 0
      then y # sort_insert cmp x ys else x # y # ys)"

fun array_sort :: "('a \<Rightarrow> 'a \<Rightarrow> real option) \<Rightarrow> 'a list \<Rightarrow> 'a list" where
  "array_sort cmp [] = []"
| "array_sort cmp (x # xs) = sort_insert cmp x (array_sort cmp xs)"

subsection \<open>Configuration and the model client\<close>

definition HF_URL :: string where
  "HF_URL = ''https://router.huggingface.co''"

definition SENTIMENT_MODEL :: string where
  "SENTIMENT_MODEL = ''cardiffnlp/twitter-roberta-base-sentiment-latest''"

definition INTENT_MODEL :: string where
  "INTENT_MODEL = ''facebook/bart-large-mnli''"

definition INTENT_LABELS :: "string list" where
  "INTENT_LABELS =
     [''greeting'', ''product_query'', ''order_status'', ''refund'', ''cancel_order'',
      ''password_reset'', ''account_login'', ''bug_report'', ''feature_request'',
      ''complaint'', ''praise'', ''question'']"

text \<open>
  What \<^verbatim>\<open>fetch\<close> yields for a request: a rejection, or a response with its status,
  its body as text (\<^verbatim>\<open>res.text()\<close>) and its body as JSON (\<^verbatim>\<open>res.json()\<close>, \<open>None\<close> when
  the body does not parse). The remote service maps the URL and the payload to it;
  the headers are the same in every request.
\<close>

datatype fetched = Rejected | Response nat string "jsval option"

type_synonym remote = "string \<Rightarrow> jsval \<Rightarrow> fetched"

definition callModel :: "remote \<Rightarrow> string \<Rightarrow> jsval \<Rightarrow> error + jsval" where
  "callModel remote model payload =
     (let url = HF_URL @ ''/hf-inference/models/'' @ model in
      case remote url payload of
        Rejected \<Rightarrow> Inl FetchFailed
      | Response status body json \<Rightarrow>
          if \<not> (200 \<le> status \<and> status \<le> 299) then Inl (HttpError status body)
          else (case json of None \<Rightarrow> Inl SyntaxError | Some v \<Rightarrow> Inr v))"

subsection \<open>Sentiment analysis\<close>

text \<open>The callback of the reduce:
  \<^verbatim>\<open>(best, cur) => (cur.score > best.score ? cur : best)\<close>.\<close>

definition better :: "jsval \<Rightarrow> jsval \<Rightarrow> error + jsval" where
  "better best cur =
     and_then (get_prop cur ''score'') (\<lambda>c.
     and_then (get_prop best ''score'') (\<lambda>b.
     and_then (as_score c) (\<lambda>cs.
     and_then (as_score b) (\<lambda>bs.
       Inr (if js_gt cs bs then cur else best)))))"

text \<open>\<^verbatim>\<open>arr.reduce(f, init)\<close> on an array: left to right from the initial value.\<close>

fun reduce :: "(jsval \<Rightarrow> jsval \<Rightarrow> error + jsval) \<Rightarrow> jsval \<Rightarrow> jsval list \<Rightarrow> error + jsval" where
  "reduce f acc [] = Inr acc"
| "reduce f acc (x # xs) = and_then (f acc x) (\<lambda>acc'. reduce f acc' xs)"

text \<open>\<^verbatim>\<open>Array.isArray(data) && Array.isArray(data[0]) ? data[0] : data\<close>.\<close>

definition unwrap :: "jsval \<Rightarrow> jsval" where
  "unwrap data =
     (case data of
        Arr xs \<Rightarrow> if isArray (elem_at xs 0) then elem_at xs 0 else data
      | _ \<Rightarrow> data)"

text \<open>The rest of \<^verbatim>\<open>getSentiment\<close>, from \<open>arr\<close> on. A value that is not an array has
  no \<^verbatim>\<open>reduce\<close> to call.\<close>

definition top_of :: "jsval \<Rightarrow> error + scored" where
  "top_of arr =
     (case arr of
        Arr ys \<Rightarrow>
          and_then (reduce better (elem_at ys 0) ys) (\<lambda>top'.
          and_then (get_prop top' ''label'') (\<lambda>l.
          and_then (get_prop top' ''score'') (\<lambda>s.
          and_then (as_score s) (\<lambda>sc.
            Inr \<lparr>label = l, score = sc\<rparr>))))
      | _ \<Rightarrow> Inl TypeError)"

definition getSentiment :: "remote \<Rightarrow> string \<Rightarrow> error + scored" where
  "getSentiment remote text =
     and_then (callModel remote SENTIMENT_MODEL (Obj [(''inputs'', Str text)])) (\<lambda>data.
       let arr = unwrap data in top_of arr)"

subsection \<open>Intent detection\<close>

text \<open>\<^verbatim>\<open>labels.map((l, i) => ({ label: l, score: scores[i] }))\<close>, from index \<open>i\<close> on.\<close>

fun pair_up :: "jsval \<Rightarrow> nat \<Rightarrow> jsval list \<Rightarrow> error + scored list" where
  "pair_up scores i [] = Inr []"
| "pair_up scores i (l # ls) =
     and_then (index scores i) (\<lambda>s.
     and_then (as_score s) (\<lambda>sc.
     and_then (pair_up scores (Suc i) ls) (\<lambda>rest.
       Inr (\<lparr>label = l, score = sc\<rparr> # rest))))"

text \<open>The comparator \<^verbatim>\<open>(a, b) => b.score - a.score\<close>.\<close>

definition by_score_desc :: "scored \<Rightarrow> scored \<Rightarrow> real option" where
  "by_score_desc a b = js_sub (score b) (score a)"

definition intent_payload :: "string \<Rightarrow> jsval" where
  "intent_payload text =
     Obj [(''inputs'', Str text),
          (''parameters'', Obj [(''candidate_labels'', Arr (map Str INTENT_LABELS)),
                                (''multi_label'', Bool True)])]"

text \<open>The rest of \<^verbatim>\<open>getIntent\<close>, from \<open>data\<close> on. Only an array has a \<^verbatim>\<open>map\<close> to
  call.\<close>

definition ranked_of :: "jsval \<Rightarrow> error + scored list" where
  "ranked_of data =
     and_then (get_prop data ''labels'') (\<lambda>l.
     and_then (get_prop data ''scores'') (\<lambda>s.
       let labels = or_empty l; scores = or_empty s in
       case labels of
         Arr ls \<Rightarrow> and_then (pair_up scores 0 ls) (\<lambda>paired. Inr (array_sort by_score_desc paired))
       | _ \<Rightarrow> Inl TypeError))"

definition getIntent :: "remote \<Rightarrow> string \<Rightarrow> error + scored list" where
  "getIntent remote text =
     and_then (callModel remote INTENT_MODEL (intent_payload text)) ranked_of"

subsection \<open>Feedback bucket\<close>

definition getFeedbackBucket :: "jsval \<Rightarrow> scored list \<Rightarrow> string" where
  "getFeedbackBucket sentiment intents =
     (let top' = take 3 (filter (\<lambda>i. js_ge (score i) 0.35) intents);
          names = map label top'
      in if js_includes names (Str ''complaint'') \<or> sentiment = Str ''negative'' then ''complaint''
         else if js_includes names (Str ''bug_report'') then ''bug_report''
         else if js_includes names (Str ''refund'') \<or> js_includes names (Str ''cancel_order'')
           then ''refund/cancellation''
         else if js_includes names (Str ''feature_request'') then ''suggestion''
         else if js_includes names (Str ''praise'') \<or> sentiment = Str ''positive'' then ''praise''
         else if js_includes names (Str ''question'') then ''question''
         else ''other'')"

subsection \<open>Main analysis pipeline\<close>

record analysis =
  input :: string
  sentiment :: scored
  intents_ranked :: "scored list"
  feedback_bucket :: string

definition analyze :: "remote \<Rightarrow> string \<Rightarrow> error + analysis" where
  "analyze remote text =
     and_then (getSentiment remote text) (\<lambda>sent.
     and_then (getIntent remote text) (\<lambda>intents.
       let bucket = getFeedbackBucket (label sent) intents
       in Inr \<lparr>input = text, sentiment = sent,
               intents_ranked = take 5 intents, feedback_bucket = bucket\<rparr>))"

subsection \<open>Runs in a world\<close>

text \<open>
  The same program with what a run can see of the outside made explicit. The remote
  service has a state of its own, which every request may change: it maps its state
  and a request to a reply and its next state, so the same request can be answered
  differently the next time. A run carries that state along, from one \<^verbatim>\<open>await\<close> to the
  next, together with the replies it has received so far. The engine's
  \<^verbatim>\<open>Array.prototype.sort\<close> is a parameter: where ECMAScript leaves the order open, it is
  whatever the engine does. The program keeps no state of its own between two runs:
  the constants of the module are all a run reads.
\<close>

type_synonym 'w service = "'w \<Rightarrow> string \<Rightarrow> jsval \<Rightarrow> fetched \<times> 'w"

type_synonym sorter = "(scored \<Rightarrow> scored \<Rightarrow> real option) \<Rightarrow> scored list \<Rightarrow> scored list"

text \<open>What \<^verbatim>\<open>callModel\<close> makes of the response, once \<^verbatim>\<open>fetch\<close> has settled.\<close>

definition read_response :: "fetched \<Rightarrow> error + jsval" where
  "read_response res =
     (case res of
        Rejected \<Rightarrow> Inl FetchFailed
      | Response status body json \<Rightarrow>
          if \<not> (200 \<le> status \<and> status \<le> 299) then Inl (HttpError status body)
          else (case json of None \<Rightarrow> Inl SyntaxError | Some v \<Rightarrow> Inr v))"

definition callModel_run ::
  "'w service \<Rightarrow> string \<Rightarrow> jsval \<Rightarrow> 'w \<times> fetched list \<Rightarrow> (error + jsval) \<times> ('w \<times> fetched list)" where
  "callModel_run svc model payload st =
     (let url = HF_URL @ ''/hf-inference/models/'' @ model;
          (res, w') = svc (fst st) url payload
      in (read_response res, (w', snd st @ [res])))"

definition getSentiment_run ::
  "'w service \<Rightarrow> string \<Rightarrow> 'w \<times> fetched list \<Rightarrow> (error + scored) \<times> ('w \<times> fetched list)" where
  "getSentiment_run svc text st =
     (let (called, st') = callModel_run svc SENTIMENT_MODEL (Obj [(''inputs'', Str text)]) st
      in (and_then called (\<lambda>data. let arr = unwrap data in top_of arr), st'))"

definition ranked_with :: "sorter \<Rightarrow> jsval \<Rightarrow> error + scored list" where
  "ranked_with srt data =
     and_then (get_prop data ''labels'') (\<lambda>l.
     and_then (get_prop data ''scores'') (\<lambda>s.
       let labels = or_empty l; scores = or_empty s in
       case labels of
         Arr ls \<Rightarrow> and_then (pair_up scores 0 ls) (\<lambda>paired. Inr (srt by_score_desc paired))
       | _ \<Rightarrow> Inl TypeError))"

definition getIntent_run ::
  "sorter \<Rightarrow> 'w service \<Rightarrow> string \<Rightarrow> 'w \<times> fetched list
     \<Rightarrow> (error + scored list) \<times> ('w \<times> fetched list)" where
  "getIntent_run srt svc text st =
     (let (called, st') = callModel_run svc INTENT_MODEL (intent_payload text) st
      in (and_then called (ranked_with srt), st'))"

definition analyze_run ::
  "sorter \<Rightarrow> 'w service \<Rightarrow> string \<Rightarrow> 'w \<times> fetched list
     \<Rightarrow> (error + analysis) \<times> ('w \<times> fetched list)" where
  "analyze_run srt svc text st =
     (case getSentiment_run svc text st of
        (Inl e, st1) \<Rightarrow> (Inl e, st1)
      | (Inr sent, st1) \<Rightarrow>
          (case getIntent_run srt svc text st1 of
             (Inl e, st2) \<Rightarrow> (Inl e, st2)
           | (Inr intents, st2) \<Rightarrow>
               (let bucket = getFeedbackBucket (label sent) intents
                in (Inr \<lparr>input = text, sentiment = sent,
                         intents_ranked = take 5 intents, feedback_bucket = bucket\<rparr>, st2))))"

text \<open>The three parts of a finished run: what it returned or threw, the state it left the
  service in, and the replies it received, in order.\<close>

definition outcome :: "'a \<times> ('w \<times> fetched list) \<Rightarrow> 'a" where
  "outcome run = fst run"

definition world_after :: "'a \<times> ('w \<times> fetched list) \<Rightarrow> 'w" where
  "world_after run = fst (snd run)"

definition replies_seen :: "'a \<times> ('w \<times> fetched list) \<Rightarrow> fetched list" where
  "replies_seen run = snd (snd run)"

section \<open>What the specification says, and example responses\<close>

subsection \<open>The specification's words\<close>

text \<open>The entries of a sentiment response as the specification describes them: a nested
  response (an array whose first element is itself an array) stands for its inner
  array, a flat response for itself.\<close>

fun entries_of :: "jsval \<Rightarrow> jsval list" where
  "entries_of (Arr (Arr ys # rest)) = ys"
| "entries_of (Arr xs) = xs"
| "entries_of _ = []"

text \<open>An entry with a numeric score, and that score.\<close>

definition has_numeric_score :: "jsval \<Rightarrow> bool" where
  "has_numeric_score e = (case field e ''score'' of Num r \<Rightarrow> True | _ \<Rightarrow> False)"

definition score_value :: "jsval \<Rightarrow> real" where
  "score_value e = (case field e ''score'' of Num r \<Rightarrow> r | _ \<Rightarrow> 0)"

text \<open>An entry (an object) with no score at all.\<close>

definition lacks_score :: "jsval \<Rightarrow> bool" where
  "lacks_score e = (case e of Obj kvs \<Rightarrow> map_of kvs ''score'' = None | _ \<Rightarrow> False)"

text \<open>Descending order of scores: both scores are numbers and the first is not below
  the second.\<close>

definition score_ge :: "scored \<Rightarrow> scored \<Rightarrow> bool" where
  "score_ge a b = (case (score a, score b) of (Some x, Some y) \<Rightarrow> x \<ge> y | _ \<Rightarrow> False)"

text \<open>Index-wise pairing, one entry for every label: label \<open>i\<close> with score \<open>i\<close>, and with
  no score where the scores end before the labels.\<close>

definition paired :: "jsval list \<Rightarrow> real list \<Rightarrow> scored list" where
  "paired ls rs =
     map (\<lambda>(i, l). \<lparr>label = l, score = (if i < length rs then Some (rs ! i) else None)\<rparr>)
       (enumerate 0 ls)"

subsection \<open>Mocked remotes\<close>

text \<open>A remote that answers the sentiment model's URL with \<open>s\<close> and the intent model's
  with \<open>i\<close>; and a
  response with status 200 and a JSON body, whose text the program never reads and
  the examples leave as a placeholder.\<close>

definition serve :: "fetched \<Rightarrow> fetched \<Rightarrow> remote" where
  "serve s i url payload =
     (if url = HF_URL @ ''/hf-inference/models/'' @ SENTIMENT_MODEL then s
      else if url = HF_URL @ ''/hf-inference/models/'' @ INTENT_MODEL then i
      else Response 404 ''Not Found'' None)"

text \<open>Services with a state. One has no state to speak of; one counts the requests it
  has served and answers as the remote does; one answers as the remote does for its
  first \<open>k\<close> requests and with a status 503 from then on.\<close>

definition stateless :: "remote \<Rightarrow> unit service" where
  "stateless remote w url payload = (remote url payload, w)"

definition counting :: "remote \<Rightarrow> nat service" where
  "counting remote n url payload = (remote url payload, Suc n)"

definition failing_after :: "nat \<Rightarrow> remote \<Rightarrow> nat service" where
  "failing_after k remote n url payload =
     (if n < k then remote url payload else Response 503 ''Service Unavailable'' None, Suc n)"

text \<open>The record \<^verbatim>\<open>analyze\<close> builds from its two results.\<close>

definition assemble :: "string \<Rightarrow> scored \<Rightarrow> scored list \<Rightarrow> analysis" where
  "assemble text sent intents =
     \<lparr>input = text, sentiment = sent, intents_ranked = take 5 intents,
      feedback_bucket = getFeedbackBucket (label sent) intents\<rparr>"

definition ok :: "jsval \<Rightarrow> fetched" where
  "ok v = Response 200 ''(the JSON text)'' (Some v)"

definition sentiment_negative :: jsval where
  "sentiment_negative =
     Arr [Arr [Obj [(''label'', Str ''negative''), (''score'', Num 0.9)],
               Obj [(''label'', Str ''neutral''), (''score'', Num 0.08)],
               Obj [(''label'', Str ''positive''), (''score'', Num 0.02)]]]"

definition tie_entries :: "jsval list" where
  "tie_entries =
     [Obj [(''label'', Str ''a''), (''score'', Num 0.5)],
      Obj [(''label'', Str ''b''), (''score'', Num 0.5)]]"

definition unscored_entries :: "jsval list" where
  "unscored_entries = [Obj [(''label'', Str ''positive'')], Obj [(''label'', Str ''negative'')]]"

definition intents_refund :: jsval where
  "intents_refund =
     Obj [(''labels'', Arr [Str ''refund'', Str ''bug_report'', Str ''complaint'',
                           Str ''cancel_order'', Str ''question'', Str ''greeting'']),
          (''scores'', Arr [Num 0.9, Num 0.8, Num 0.3, Num 0.2, Num 0.1, Num 0.05])]"

definition intents_tied :: jsval where
  "intents_tied =
     Obj [(''labels'', Arr [Str ''refund'', Str ''praise'', Str ''bug_report'', Str ''question'']),
          (''scores'', Arr [Num 0.2, Num 0.9, Num 0.6, Num 0.9])]"

definition intents_short_scores :: jsval where
  "intents_short_scores =
     Obj [(''labels'', Arr [Str ''refund'', Str ''praise'']), (''scores'', Arr [Num 0.9])]"

definition intents_no_scores :: jsval where
  "intents_no_scores = Obj [(''labels'', Arr [Str ''refund''])]"

definition intents_no_labels :: jsval where
  "intents_no_labels = Obj [(''scores'', Arr [Num 0.9])]"

section \<open>The feedback bucket\<close>

text \<open>The bucket is a function of the active intent set alone: the entries with
  \<^verbatim>\<open>score >= 0.35\<close>, the first three of them.\<close>

lemma bucket_of_active:
  "getFeedbackBucket s intents =
     getFeedbackBucket s (take 3 (filter (\<lambda>i. js_ge (score i) 0.35) intents))"
proof -
  let ?ok = "\<lambda>i. js_ge (score i) 0.35"
  have "filter ?ok (take 3 (filter ?ok intents)) = take 3 (filter ?ok intents)"
    by (rule filter_True) (auto dest: in_set_takeD)
  then show ?thesis
    by (simp add: getFeedbackBucket_def)
qed

text \<open>
  C1. Whenever the active intent set (score at least 0.35, the first three) has the
  label \<^verbatim>\<open>complaint\<close>, or the sentiment label is \<^verbatim>\<open>negative\<close>, the bucket is
  \<^verbatim>\<open>complaint\<close>, whatever else the active set holds (a \<^verbatim>\<open>praise\<close>, say) and whatever
  the sentiment is otherwise.
\<close>

theorem complaint_takes_precedence:
  "js_includes (map label (take 3 (filter (\<lambda>i. js_ge (score i) 0.35) intents)))
       (Str ''complaint'')
     \<or> s = Str ''negative''
   \<Longrightarrow> getFeedbackBucket s intents = ''complaint''"
  by (auto simp add: getFeedbackBucket_def Let_def)

text \<open>The spec's example P4 (praise 0.8 and complaint 0.4 under a negative sentiment),
  and the same intents under a positive sentiment.\<close>

theorem complaint_takes_precedence_witness:
  "js_includes
     (map label (take 3 (filter (\<lambda>i. js_ge (score i) 0.35)
        [\<lparr>label = Str ''praise'', score = Some 0.8\<rparr>,
         \<lparr>label = Str ''complaint'', score = Some 0.4\<rparr>])))
     (Str ''complaint'')
   \<and> getFeedbackBucket (Str ''negative'')
        [\<lparr>label = Str ''praise'', score = Some 0.8\<rparr>,
         \<lparr>label = Str ''complaint'', score = Some 0.4\<rparr>] = ''complaint''
   \<and> getFeedbackBucket (Str ''positive'')
        [\<lparr>label = Str ''praise'', score = Some 0.8\<rparr>,
         \<lparr>label = Str ''complaint'', score = Some 0.4\<rparr>] = ''complaint''"
proof -
  let ?xs = "[\<lparr>label = Str ''praise'', score = Some 0.8\<rparr>,
              \<lparr>label = Str ''complaint'', score = Some 0.4\<rparr>]"
  have act: "js_includes (map label (take 3 (filter (\<lambda>i. js_ge (score i) 0.35) ?xs)))
               (Str ''complaint'')"
    by (simp add: js_includes_def)
  show ?thesis
    using complaint_takes_precedence [of ?xs "Str ''negative''"]
      complaint_takes_precedence [of ?xs "Str ''positive''"] act
    by blast
qed

text \<open>
  C2. The bucket depends only on the entries with score at least 0.35, and of these
  only on the first three in list order: two lists with the same active set get the
  same bucket; an entry below 0.35 can be dropped anywhere without changing the
  bucket; and once three entries qualify, nothing that follows them changes the
  bucket.
\<close>

theorem bucket_depends_on_active_only:
  "(take 3 (filter (\<lambda>i. js_ge (score i) 0.35) xs) =
      take 3 (filter (\<lambda>i. js_ge (score i) 0.35) ys)
      \<longrightarrow> getFeedbackBucket s xs = getFeedbackBucket s ys)
   \<and> (\<not> js_ge (score e) 0.35
      \<longrightarrow> getFeedbackBucket s (xs @ e # ys) = getFeedbackBucket s (xs @ ys))
   \<and> (3 \<le> length (filter (\<lambda>i. js_ge (score i) 0.35) xs)
      \<longrightarrow> getFeedbackBucket s (xs @ ys) = getFeedbackBucket s xs)"
proof (intro conjI impI)
  assume "take 3 (filter (\<lambda>i. js_ge (score i) 0.35) xs) =
          take 3 (filter (\<lambda>i. js_ge (score i) 0.35) ys)"
  then show "getFeedbackBucket s xs = getFeedbackBucket s ys"
    using bucket_of_active [of s xs] bucket_of_active [of s ys] by simp
next
  assume "\<not> js_ge (score e) 0.35"
  then show "getFeedbackBucket s (xs @ e # ys) = getFeedbackBucket s (xs @ ys)"
    by (simp add: getFeedbackBucket_def)
next
  assume "3 \<le> length (filter (\<lambda>i. js_ge (score i) 0.35) xs)"
  then show "getFeedbackBucket s (xs @ ys) = getFeedbackBucket s xs"
    by (simp add: getFeedbackBucket_def)
qed

text \<open>The spec's examples P5 (a \<^verbatim>\<open>bug_report\<close> at 0.30 under a neutral sentiment) and P6
  (five qualifying intents, \<^verbatim>\<open>complaint\<close> the fourth).\<close>

theorem bucket_depends_on_active_only_witness:
  "\<not> js_ge (score \<lparr>label = Str ''bug_report'', score = Some 0.30\<rparr>) 0.35
   \<and> getFeedbackBucket (Str ''neutral'') [\<lparr>label = Str ''bug_report'', score = Some 0.30\<rparr>]
       = ''other''
   \<and> 3 \<le> length (filter (\<lambda>i. js_ge (score i) 0.35)
              [\<lparr>label = Str ''greeting'', score = Some 0.9\<rparr>,
               \<lparr>label = Str ''product_query'', score = Some 0.8\<rparr>,
               \<lparr>label = Str ''order_status'', score = Some 0.7\<rparr>])
   \<and> getFeedbackBucket (Str ''neutral'')
        [\<lparr>label = Str ''greeting'', score = Some 0.9\<rparr>,
         \<lparr>label = Str ''product_query'', score = Some 0.8\<rparr>,
         \<lparr>label = Str ''order_status'', score = Some 0.7\<rparr>,
         \<lparr>label = Str ''complaint'', score = Some 0.6\<rparr>,
         \<lparr>label = Str ''praise'', score = Some 0.5\<rparr>] = ''other''"
proof -
  let ?e = "\<lparr>label = Str ''bug_report'', score = Some 0.30\<rparr>"
  let ?xs = "[\<lparr>label = Str ''greeting'', score = Some 0.9\<rparr>,
              \<lparr>label = Str ''product_query'', score = Some 0.8\<rparr>,
              \<lparr>label = Str ''order_status'', score = Some 0.7\<rparr>]"
  let ?ys = "[\<lparr>label = Str ''complaint'', score = Some 0.6\<rparr>,
              \<lparr>label = Str ''praise'', score = Some 0.5\<rparr>]"
  have low: "\<not> js_ge (score ?e) 0.35"
    by simp
  have three: "3 \<le> length (filter (\<lambda>i. js_ge (score i) 0.35) ?xs)"
    by simp
  have empty: "getFeedbackBucket (Str ''neutral'') [] = ''other''"
    by (simp add: getFeedbackBucket_def js_includes_def)
  have first3: "getFeedbackBucket (Str ''neutral'') ?xs = ''other''"
    by (simp add: getFeedbackBucket_def js_includes_def)
  have "getFeedbackBucket (Str ''neutral'') ([] @ ?e # []) = getFeedbackBucket (Str ''neutral'') ([] @ [])"
    using bucket_depends_on_active_only [of "[]" "[]" "Str ''neutral''" ?e] low by blast
  moreover have "getFeedbackBucket (Str ''neutral'') (?xs @ ?ys) = getFeedbackBucket (Str ''neutral'') ?xs"
    using bucket_depends_on_active_only [of ?xs ?ys "Str ''neutral''"] three by blast
  ultimately show ?thesis
    using low three empty first3 by simp
qed

text \<open>
  C10. The bucket is one of seven strings, for every sentiment label (any value, a string
  outside positive/negative/neutral too) and every intent list (the empty one too).
  The function reads and builds lists only; no step of it can fail.
\<close>

theorem bucket_in_closed_set:
  "getFeedbackBucket s intents \<in>
     {''complaint'', ''bug_report'', ''refund/cancellation'', ''suggestion'', ''praise'',
      ''question'', ''other''}"
  by (simp add: getFeedbackBucket_def Let_def)

section \<open>The sentiment extractor\<close>

lemma callModel_serve:
  "callModel (serve (ok v) i) SENTIMENT_MODEL p = Inr v"
  "callModel (serve s (ok v)) INTENT_MODEL p = Inr v"
  "callModel (serve (Response 500 b None) i) SENTIMENT_MODEL p = Inl (HttpError 500 b)"
  "callModel (serve s (Response 500 b None)) INTENT_MODEL p = Inl (HttpError 500 b)"
  by (simp_all add: callModel_def serve_def ok_def SENTIMENT_MODEL_def INTENT_MODEL_def)

lemma unwrap_entries: "unwrap (Arr xs) = Arr (entries_of (Arr xs))"
proof (cases xs)
  case Nil
  then show ?thesis by (simp add: unwrap_def elem_at_def)
next
  case (Cons x rest)
  then show ?thesis by (cases x) (simp_all add: unwrap_def elem_at_def)
qed

lemma numeric_score_prop:
  assumes "has_numeric_score e"
  shows "get_prop e ''score'' = Inr (Num (score_value e))"
proof -
  from assms obtain r where r: "field e ''score'' = Num r"
    by (auto simp: has_numeric_score_def split: jsval.splits)
  then have "e \<noteq> Undefined" "e \<noteq> Null" by auto
  with r show ?thesis by (simp add: get_prop_def score_value_def)
qed

lemma numeric_label_prop:
  assumes "has_numeric_score e"
  shows "get_prop e ''label'' = Inr (field e ''label'')"
proof -
  from assms have "e \<noteq> Undefined" "e \<noteq> Null"
    by (auto simp: has_numeric_score_def)
  then show ?thesis by (simp add: get_prop_def)
qed

lemma better_numeric:
  assumes "has_numeric_score best" "has_numeric_score cur"
  shows "better best cur = Inr (if score_value cur > score_value best then cur else best)"
  using assms by (simp add: better_def and_then_def numeric_score_prop)

text \<open>The reduce keeps the first entry of the greatest score: it replaces its candidate
  only by a strictly greater one.\<close>

lemma reduce_better_numeric:
  assumes "has_numeric_score best" "\<forall>e\<in>set xs. has_numeric_score e"
  shows "\<exists>t. reduce better best xs = Inr t \<and> has_numeric_score t \<and>
           ((t = best \<and> (\<forall>e\<in>set xs. score_value e \<le> score_value best))
            \<or> (\<exists>pre post. xs = pre @ t # post \<and> score_value best < score_value t
                 \<and> (\<forall>e\<in>set pre. score_value e < score_value t)
                 \<and> (\<forall>e\<in>set post. score_value e \<le> score_value t)))"
  using assms
proof (induction xs arbitrary: best)
  case Nil
  then show ?case by simp
next
  case (Cons x xs)
  from Cons.prems have nx: "has_numeric_score x" and nxs: "\<forall>e\<in>set xs. has_numeric_score e"
    by simp_all
  show ?case
  proof (cases "score_value x > score_value best")
    case True
    then have step: "reduce better best (x # xs) = reduce better x xs"
      using Cons.prems(1) nx by (simp add: better_numeric and_then_def)
    from Cons.IH [OF nx nxs] obtain t where t: "reduce better x xs = Inr t" "has_numeric_score t"
      and alt: "(t = x \<and> (\<forall>e\<in>set xs. score_value e \<le> score_value x))
            \<or> (\<exists>pre post. xs = pre @ t # post \<and> score_value x < score_value t
                 \<and> (\<forall>e\<in>set pre. score_value e < score_value t)
                 \<and> (\<forall>e\<in>set post. score_value e \<le> score_value t))"
      by blast
    from alt have "\<exists>pre post. x # xs = pre @ t # post \<and> score_value best < score_value t
                 \<and> (\<forall>e\<in>set pre. score_value e < score_value t)
                 \<and> (\<forall>e\<in>set post. score_value e \<le> score_value t)"
    proof
      assume a: "t = x \<and> (\<forall>e\<in>set xs. score_value e \<le> score_value x)"
      then have "x # xs = [] @ t # xs" by simp
      with a True show ?thesis by (metis empty_iff list.set(1))
    next
      assume "\<exists>pre post. xs = pre @ t # post \<and> score_value x < score_value t
                 \<and> (\<forall>e\<in>set pre. score_value e < score_value t)
                 \<and> (\<forall>e\<in>set post. score_value e \<le> score_value t)"
      then obtain pre post where p: "xs = pre @ t # post" "score_value x < score_value t"
        "\<forall>e\<in>set pre. score_value e < score_value t" "\<forall>e\<in>set post. score_value e \<le> score_value t"
        by blast
      have "x # xs = (x # pre) @ t # post" using p(1) by simp
      moreover have "score_value best < score_value t" using True p(2) by simp
      moreover have "\<forall>e\<in>set (x # pre). score_value e < score_value t" using p(2,3) by simp
      ultimately show ?thesis using p(4) by blast
    qed
    with step t show ?thesis by simp
  next
    case False
    then have step: "reduce better best (x # xs) = reduce better best xs"
      using Cons.prems(1) nx by (simp add: better_numeric and_then_def)
    from Cons.IH [OF Cons.prems(1) nxs] obtain t where t: "reduce better best xs = Inr t" "has_numeric_score t"
      and alt: "(t = best \<and> (\<forall>e\<in>set xs. score_value e \<le> score_value best))
            \<or> (\<exists>pre post. xs = pre @ t # post \<and> score_value best < score_value t
                 \<and> (\<forall>e\<in>set pre. score_value e < score_value t)
                 \<and> (\<forall>e\<in>set post. score_value e \<le> score_value t))"
      by blast
    from alt have "(t = best \<and> (\<forall>e\<in>set (x # xs). score_value e \<le> score_value best))
            \<or> (\<exists>pre post. x # xs = pre @ t # post \<and> score_value best < score_value t
                 \<and> (\<forall>e\<in>set pre. score_value e < score_value t)
                 \<and> (\<forall>e\<in>set post. score_value e \<le> score_value t))"
    proof
      assume "t = best \<and> (\<forall>e\<in>set xs. score_value e \<le> score_value best)"
      with False show ?thesis by simp
    next
      assume "\<exists>pre post. xs = pre @ t # post \<and> score_value best < score_value t
                 \<and> (\<forall>e\<in>set pre. score_value e < score_value t)
                 \<and> (\<forall>e\<in>set post. score_value e \<le> score_value t)"
      then obtain pre post where p: "xs = pre @ t # post" "score_value best < score_value t"
        "\<forall>e\<in>set pre. score_value e < score_value t" "\<forall>e\<in>set post. score_value e \<le> score_value t"
        by blast
      have "x # xs = (x # pre) @ t # post" using p(1) by simp
      moreover have "\<forall>e\<in>set (x # pre). score_value e < score_value t" using False p(2,3) by simp
      ultimately show ?thesis using p(2,4) by blast
    qed
    with step t show ?thesis by simp
  qed
qed

lemma top_of_numeric:
  assumes "es \<noteq> []" "\<forall>e\<in>set es. has_numeric_score e"
  shows "\<exists>pre t post. es = pre @ t # post
           \<and> (\<forall>e\<in>set pre. score_value e < score_value t)
           \<and> (\<forall>e\<in>set post. score_value e \<le> score_value t)
           \<and> top_of (Arr es) = Inr \<lparr>label = field t ''label'', score = Some (score_value t)\<rparr>"
proof -
  from assms(1) obtain e0 rest where es: "es = e0 # rest" by (cases es) auto
  with assms(2) have n0: "has_numeric_score e0" and nr: "\<forall>e\<in>set rest. has_numeric_score e"
    by simp_all
  have start: "reduce better (elem_at es 0) es = reduce better e0 rest"
    using n0 by (simp add: es elem_at_def better_numeric and_then_def)
  from reduce_better_numeric [OF n0 nr] obtain t where t: "reduce better e0 rest = Inr t"
    "has_numeric_score t"
    and alt: "(t = e0 \<and> (\<forall>e\<in>set rest. score_value e \<le> score_value e0))
            \<or> (\<exists>pre post. rest = pre @ t # post \<and> score_value e0 < score_value t
                 \<and> (\<forall>e\<in>set pre. score_value e < score_value t)
                 \<and> (\<forall>e\<in>set post. score_value e \<le> score_value t))"
    by blast
  have res: "top_of (Arr es) = Inr \<lparr>label = field t ''label'', score = Some (score_value t)\<rparr>"
    using start t by (simp add: top_of_def and_then_def numeric_score_prop numeric_label_prop)
  from alt have "\<exists>pre post. es = pre @ t # post
           \<and> (\<forall>e\<in>set pre. score_value e < score_value t)
           \<and> (\<forall>e\<in>set post. score_value e \<le> score_value t)"
  proof
    assume a: "t = e0 \<and> (\<forall>e\<in>set rest. score_value e \<le> score_value e0)"
    then have "es = [] @ t # rest" using es by simp
    with a show ?thesis by (metis empty_iff list.set(1))
  next
    assume "\<exists>pre post. rest = pre @ t # post \<and> score_value e0 < score_value t
                 \<and> (\<forall>e\<in>set pre. score_value e < score_value t)
                 \<and> (\<forall>e\<in>set post. score_value e \<le> score_value t)"
    then obtain pre post where p: "rest = pre @ t # post" "score_value e0 < score_value t"
      "\<forall>e\<in>set pre. score_value e < score_value t" "\<forall>e\<in>set post. score_value e \<le> score_value t"
      by blast
    have "es = (e0 # pre) @ t # post" using es p(1) by simp
    moreover have "\<forall>e\<in>set (e0 # pre). score_value e < score_value t" using p(2,3) by simp
    ultimately show ?thesis using p(4) by blast
  qed
  with res show ?thesis by blast
qed

text \<open>
  C3. For a sentiment response that is an array whose entries (the inner array of a
  nested response, the array itself of a flat one) are not empty and have numeric
  scores, \<^verbatim>\<open>getSentiment\<close> returns the label and score of an entry whose score no
  entry exceeds and every earlier entry is strictly below: the maximum, the first
  one among equals.
\<close>

theorem getSentiment_first_max:
  assumes "callModel remote SENTIMENT_MODEL (Obj [(''inputs'', Str text)]) = Inr (Arr xs)"
    and "entries_of (Arr xs) \<noteq> []"
    and "\<forall>e\<in>set (entries_of (Arr xs)). has_numeric_score e"
  shows "\<exists>pre t post. entries_of (Arr xs) = pre @ t # post
           \<and> (\<forall>e\<in>set pre. score_value e < score_value t)
           \<and> (\<forall>e\<in>set post. score_value e \<le> score_value t)
           \<and> getSentiment remote text = Inr \<lparr>label = field t ''label'', score = Some (score_value t)\<rparr>"
proof -
  have "getSentiment remote text = top_of (Arr (entries_of (Arr xs)))"
    using assms(1) by (simp add: getSentiment_def and_then_def unwrap_entries)
  with top_of_numeric [OF assms(2,3)] show ?thesis by simp
qed

text \<open>The spec's examples P2 (a tie of \<^verbatim>\<open>a\<close> and \<^verbatim>\<open>b\<close> at 0.5, flat) and P1 (a
  nested response).\<close>

theorem getSentiment_first_max_witness:
  "entries_of (Arr tie_entries) \<noteq> []
   \<and> list_all has_numeric_score (entries_of (Arr tie_entries))
   \<and> getSentiment (serve (ok (Arr tie_entries)) (ok intents_refund)) ''hi''
       = Inr \<lparr>label = Str ''a'', score = Some 0.5\<rparr>
   \<and> entries_of sentiment_negative \<noteq> []
   \<and> list_all has_numeric_score (entries_of sentiment_negative)
   \<and> getSentiment (serve (ok sentiment_negative) (ok intents_refund)) ''hi''
       = Inr \<lparr>label = Str ''negative'', score = Some 0.9\<rparr>"
proof -
  let ?r1 = "serve (ok (Arr tie_entries)) (ok intents_refund)"
  let ?r2 = "serve (ok sentiment_negative) (ok intents_refund)"
  have c1: "callModel ?r1 SENTIMENT_MODEL (Obj [(''inputs'', Str ''hi'')]) = Inr (Arr tie_entries)"
    by (rule callModel_serve)
  have ne1: "entries_of (Arr tie_entries) \<noteq> []"
    by (simp add: tie_entries_def)
  have num1: "\<forall>e\<in>set (entries_of (Arr tie_entries)). has_numeric_score e"
    by (simp add: tie_entries_def has_numeric_score_def)
  have r1: "getSentiment ?r1 ''hi'' = Inr \<lparr>label = Str ''a'', score = Some 0.5\<rparr>"
    using getSentiment_first_max [OF c1 ne1 num1]
    by (auto simp add: tie_entries_def Cons_eq_append_conv score_value_def)
  have c2: "callModel ?r2 SENTIMENT_MODEL (Obj [(''inputs'', Str ''hi'')])
              = Inr (Arr [Arr [Obj [(''label'', Str ''negative''), (''score'', Num 0.9)],
                               Obj [(''label'', Str ''neutral''), (''score'', Num 0.08)],
                               Obj [(''label'', Str ''positive''), (''score'', Num 0.02)]]])"
    using callModel_serve(1) [of sentiment_negative] by (simp add: sentiment_negative_def)
  have ne2: "entries_of sentiment_negative \<noteq> []"
    by (simp add: sentiment_negative_def)
  have num2: "\<forall>e\<in>set (entries_of sentiment_negative). has_numeric_score e"
    by (simp add: sentiment_negative_def has_numeric_score_def)
  have r2: "getSentiment ?r2 ''hi'' = Inr \<lparr>label = Str ''negative'', score = Some 0.9\<rparr>"
    using getSentiment_first_max [OF c2 ne2 [unfolded sentiment_negative_def]
        num2 [unfolded sentiment_negative_def]]
    by (auto simp add: Cons_eq_append_conv score_value_def)
  show ?thesis
    using ne1 num1 r1 ne2 num2 r2 by (simp add: list_all_iff)
qed

lemma lacks_score_prop:
  assumes "lacks_score e"
  shows "get_prop e ''score'' = Inr Undefined" "get_prop e ''label'' = Inr (field e ''label'')"
  using assms by (auto simp: lacks_score_def get_prop_def split: jsval.splits)

lemma better_lacking:
  assumes "lacks_score best" "lacks_score cur"
  shows "better best cur = Inr best"
  using assms by (simp add: better_def and_then_def lacks_score_prop)

lemma reduce_better_lacking:
  assumes "lacks_score best" "\<forall>e\<in>set xs. lacks_score e"
  shows "reduce better best xs = Inr best"
  using assms by (induction xs) (simp_all add: better_lacking and_then_def)

text \<open>
  C5, as the code has it. The program has no error of its own for a malformed
  response. On an empty array (after the unwrapping) \<^verbatim>\<open>getSentiment\<close> fails with the
  runtime's TypeError, raised by the read of \<^verbatim>\<open>top.label\<close> on \<^verbatim>\<open>undefined\<close>. On
  entries that are objects without a score it does not fail: no comparison holds,
  and it returns the first entry's label with an undefined score.
\<close>

theorem getSentiment_empty_or_unscored:
  assumes "callModel remote SENTIMENT_MODEL (Obj [(''inputs'', Str text)]) = Inr (Arr xs)"
  shows "(entries_of (Arr xs) = [] \<longrightarrow> getSentiment remote text = Inl TypeError)
       \<and> (entries_of (Arr xs) \<noteq> [] \<and> (\<forall>e\<in>set (entries_of (Arr xs)). lacks_score e)
            \<longrightarrow> getSentiment remote text =
                  Inr \<lparr>label = field (hd (entries_of (Arr xs))) ''label'', score = None\<rparr>)"
proof -
  let ?es = "entries_of (Arr xs)"
  have run: "getSentiment remote text = top_of (Arr ?es)"
    using assms by (simp add: getSentiment_def and_then_def unwrap_entries)
  have "?es = [] \<Longrightarrow> top_of (Arr ?es) = Inl TypeError"
    by (simp add: top_of_def elem_at_def and_then_def get_prop_def)
  moreover have "top_of (Arr ?es) = Inr \<lparr>label = field (hd ?es) ''label'', score = None\<rparr>"
    if ne: "?es \<noteq> []" and un: "\<forall>e\<in>set ?es. lacks_score e"
  proof -
    from ne obtain e0 rest where es: "?es = e0 # rest" by (cases ?es) auto
    with un have l0: "lacks_score e0" and lr: "\<forall>e\<in>set (e0 # rest). lacks_score e"
      by simp_all
    have "reduce better (elem_at ?es 0) ?es = Inr e0"
      using reduce_better_lacking [OF l0 lr] by (simp add: es elem_at_def)
    then show ?thesis
      using l0 by (simp add: top_of_def and_then_def lacks_score_prop es)
  qed
  ultimately show ?thesis using run by simp
qed

theorem getSentiment_empty_or_unscored_witness:
  "entries_of (Arr []) = []
   \<and> getSentiment (serve (ok (Arr [])) (ok intents_refund)) ''hi'' = Inl TypeError
   \<and> entries_of (Arr unscored_entries) \<noteq> []
   \<and> list_all lacks_score (entries_of (Arr unscored_entries))
   \<and> getSentiment (serve (ok (Arr unscored_entries)) (ok intents_refund)) ''hi''
       = Inr \<lparr>label = Str ''positive'', score = None\<rparr>"
proof -
  let ?r1 = "serve (ok (Arr [])) (ok intents_refund)"
  let ?r2 = "serve (ok (Arr unscored_entries)) (ok intents_refund)"
  have c1: "callModel ?r1 SENTIMENT_MODEL (Obj [(''inputs'', Str ''hi'')]) = Inr (Arr [])"
    by (rule callModel_serve)
  have c2: "callModel ?r2 SENTIMENT_MODEL (Obj [(''inputs'', Str ''hi'')]) = Inr (Arr unscored_entries)"
    by (rule callModel_serve)
  have e1: "entries_of (Arr []) = []"
    by simp
  have ne2: "entries_of (Arr unscored_entries) \<noteq> []"
    by (simp add: unscored_entries_def)
  have un2: "\<forall>e\<in>set (entries_of (Arr unscored_entries)). lacks_score e"
    by (simp add: unscored_entries_def lacks_score_def)
  have hd2: "field (hd (entries_of (Arr unscored_entries))) ''label'' = Str ''positive''"
    by (simp add: unscored_entries_def)
  have "getSentiment ?r1 ''hi'' = Inl TypeError"
    using getSentiment_empty_or_unscored [OF c1] e1 by blast
  moreover have "getSentiment ?r2 ''hi'' = Inr \<lparr>label = Str ''positive'', score = None\<rparr>"
    using getSentiment_empty_or_unscored [OF c2] ne2 un2 hd2 by simp
  ultimately show ?thesis
    using e1 ne2 un2 by (simp add: list_all_iff)
qed

text \<open>C5 as stated fails: on entries without a score \<^verbatim>\<open>getSentiment\<close> returns a result,
  and on the empty array its failure is a TypeError.\<close>

theorem getSentiment_malformed_counterexample:
  "getSentiment (serve (ok (Arr unscored_entries)) (ok intents_refund)) ''hi''
     = Inr \<lparr>label = Str ''positive'', score = None\<rparr>
   \<and> getSentiment (serve (ok (Arr [])) (ok intents_refund)) ''hi'' = Inl TypeError"
  by (simp add: getSentiment_def callModel_serve and_then_def unscored_entries_def unwrap_def
      top_of_def elem_at_def better_def get_prop_def)

section \<open>The intent ranker\<close>

subsection \<open>The sort\<close>

lemma mset_sort_insert: "mset (sort_insert cmp x xs) = add_mset x (mset xs)"
  by (induction xs) simp_all

lemma mset_array_sort: "mset (array_sort cmp xs) = mset xs"
  by (induction xs) (simp_all add: mset_sort_insert)

lemma set_sort_insert: "set (sort_insert cmp x xs) = insert x (set xs)"
  using mset_sort_insert [of cmp x xs] by (metis set_mset_add_mset_insert set_mset_mset)

lemma sorted_sort_insert:
  assumes "sorted_wrt score_ge xs" "score x \<noteq> None" "\<forall>e\<in>set xs. score e \<noteq> None"
  shows "sorted_wrt score_ge (sort_insert by_score_desc x xs)"
  using assms
proof (induction xs)
  case Nil
  then show ?case by simp
next
  case (Cons y ys)
  from Cons.prems obtain sx sy where s: "score x = Some sx" "score y = Some sy"
    by auto
  show ?case
  proof (cases "sy > sx")
    case True
    then have "sort_insert by_score_desc x (y # ys) = y # sort_insert by_score_desc x ys"
      using s by (simp add: by_score_desc_def)
    moreover have "sorted_wrt score_ge (sort_insert by_score_desc x ys)"
      using Cons by simp
    moreover have "\<forall>e\<in>set (sort_insert by_score_desc x ys). score_ge y e"
      using Cons.prems(1) True s by (auto simp: set_sort_insert score_ge_def)
    ultimately show ?thesis by simp
  next
    case False
    then have "sort_insert by_score_desc x (y # ys) = x # y # ys"
      using s by (simp add: by_score_desc_def)
    moreover have "score_ge x y" using False s by (simp add: score_ge_def)
    moreover have "\<forall>e\<in>set ys. score_ge x e"
      using Cons.prems(1) False s by (fastforce simp: score_ge_def split: option.splits)
    ultimately show ?thesis using Cons.prems(1) by simp
  qed
qed

lemma sorted_array_sort:
  assumes "\<forall>e\<in>set xs. score e \<noteq> None"
  shows "sorted_wrt score_ge (array_sort by_score_desc xs)"
  using assms
proof (induction xs)
  case Nil
  then show ?case by simp
next
  case (Cons x xs)
  have "\<forall>e\<in>set (array_sort by_score_desc xs). score e \<noteq> None"
    using Cons.prems mset_array_sort [of by_score_desc xs] by (metis list.set_intros(2) set_mset_mset)
  with Cons show ?case by (simp add: sorted_sort_insert)
qed

text \<open>Stability: an element passes only elements of another score.\<close>

lemma stable_sort_insert:
  "filter (\<lambda>e. score e = k) (sort_insert by_score_desc x xs) = filter (\<lambda>e. score e = k) (x # xs)"
proof (induction xs)
  case Nil
  then show ?case by simp
next
  case (Cons y ys)
  show ?case
  proof (cases "(case by_score_desc x y of None \<Rightarrow> 0 | Some v \<Rightarrow> v) > 0")
    case True
    then have "score x \<noteq> score y"
      by (auto simp: by_score_desc_def split: option.splits elim: js_sub.elims)
    with True Cons show ?thesis by auto
  next
    case False
    then show ?thesis by simp
  qed
qed

lemma stable_array_sort:
  "filter (\<lambda>e. score e = k) (array_sort by_score_desc xs) = filter (\<lambda>e. score e = k) xs"
  by (induction xs) (simp_all add: stable_sort_insert)

subsection \<open>The pairing\<close>

lemma pair_up_numbers:
  "pair_up (Arr (map Num rs)) i ls =
     Inr (map (\<lambda>(j, l). \<lparr>label = l, score = (if j < length rs then Some (rs ! j) else None)\<rparr>)
            (enumerate i ls))"
  by (induction ls arbitrary: i) (simp_all add: and_then_def elem_at_def)

lemma ranked_of_numbers:
  assumes "map_of kvs ''labels'' = Some (Arr ls)"
    and "map_of kvs ''scores'' = Some (Arr (map Num rs)) \<or> (map_of kvs ''scores'' = None \<and> rs = [])"
  shows "ranked_of (Obj kvs) = Inr (array_sort by_score_desc (paired ls rs))"
  using assms pair_up_numbers [of rs 0 ls] pair_up_numbers [of "[]" 0 ls]
  by (auto simp add: ranked_of_def and_then_def get_prop_def or_empty_def paired_def)

lemma ranked_of_no_labels:
  assumes "map_of kvs ''labels'' = None"
  shows "ranked_of (Obj kvs) = Inr []"
  using assms by (simp add: ranked_of_def and_then_def get_prop_def or_empty_def)

lemma length_paired: "length (paired ls rs) = length ls"
  by (simp add: paired_def)

lemma paired_full:
  assumes "length ls \<le> length rs"
  shows "paired ls rs = map2 (\<lambda>l r. \<lparr>label = l, score = Some r\<rparr>) ls rs"
proof (rule nth_equalityI)
  show "length (paired ls rs) = length (map2 (\<lambda>l r. \<lparr>label = l, score = Some r\<rparr>) ls rs)"
    using assms by (simp add: paired_def)
next
  fix i assume "i < length (paired ls rs)"
  then have "i < length ls" by (simp add: paired_def)
  with assms show "paired ls rs ! i = map2 (\<lambda>l r. \<lparr>label = l, score = Some r\<rparr>) ls rs ! i"
    by (simp add: paired_def nth_enumerate_eq)
qed

lemma count_beyond: "length (filter (\<lambda>i. \<not> i < m) [0..<n]) = n - m"
  by (induction n) auto

lemma missing_paired:
  "length (filter (\<lambda>e. score e = None) (paired ls rs)) = length ls - length rs"
proof -
  let ?f = "\<lambda>p. \<lparr>label = snd p, score = (if fst p < length rs then Some (rs ! fst p) else None)\<rparr>"
  have p: "paired ls rs = map ?f (enumerate 0 ls)"
    by (simp add: paired_def case_prod_beta)
  have "filter (\<lambda>e. score e = None) (map ?f (enumerate 0 ls))
        = map ?f (filter (\<lambda>p. \<not> fst p < length rs) (enumerate 0 ls))"
    by (simp add: filter_map comp_def)
  then have "length (filter (\<lambda>e. score e = None) (paired ls rs))
        = length (filter (\<lambda>p. \<not> fst p < length rs) (enumerate 0 ls))"
    using p by simp
  also have "\<dots> = length (map fst (filter ((\<lambda>i. \<not> i < length rs) \<circ> fst) (enumerate 0 ls)))"
    by (simp add: comp_def)
  also have "\<dots> = length (filter (\<lambda>i. \<not> i < length rs) (map fst (enumerate 0 ls)))"
    by (simp only: filter_map)
  also have "\<dots> = length (filter (\<lambda>i. \<not> i < length rs) [0..<length ls])"
    by simp
  also have "\<dots> = length ls - length rs"
    by (rule count_beyond)
  finally show ?thesis .
qed

text \<open>
  C7. For a response whose labels all have a numeric score at their index,
  \<^verbatim>\<open>getIntent\<close> returns the paired candidates rearranged (the same entries, as a
  multiset) in descending order of score, and stably: for every score, the entries
  of that score stand in the order of the pairing.
\<close>

theorem getIntent_sorted_stable:
  assumes "callModel remote INTENT_MODEL (intent_payload text) = Inr (Obj kvs)"
    and "map_of kvs ''labels'' = Some (Arr ls)"
    and "map_of kvs ''scores'' = Some (Arr (map Num rs))"
    and "length ls \<le> length rs"
  shows "\<exists>ranked. getIntent remote text = Inr ranked
           \<and> mset ranked = mset (map2 (\<lambda>l r. \<lparr>label = l, score = Some r\<rparr>) ls rs)
           \<and> sorted_wrt score_ge ranked
           \<and> (\<forall>k. filter (\<lambda>e. score e = k) ranked
                   = filter (\<lambda>e. score e = k) (map2 (\<lambda>l r. \<lparr>label = l, score = Some r\<rparr>) ls rs))"
proof -
  let ?p = "map2 (\<lambda>l r. \<lparr>label = l, score = Some r\<rparr>) ls rs"
  have "getIntent remote text = Inr (array_sort by_score_desc (paired ls rs))"
    using assms(1-3) by (simp add: getIntent_def and_then_def ranked_of_numbers)
  then have run: "getIntent remote text = Inr (array_sort by_score_desc ?p)"
    using assms(4) by (simp add: paired_full)
  have "\<forall>e\<in>set ?p. score e \<noteq> None"
    by (auto simp: set_zip)
  then have "sorted_wrt score_ge (array_sort by_score_desc ?p)"
    by (rule sorted_array_sort)
  with run show ?thesis
    by (simp add: mset_array_sort stable_array_sort)
qed

text \<open>The spec's example P3, with a fourth label that ties with the second.\<close>

theorem getIntent_sorted_stable_witness:
  "length [Str ''refund'', Str ''praise'', Str ''bug_report'', Str ''question'']
     \<le> length [0.2, 0.9, 0.6, 0.9 :: real]
   \<and> (\<exists>ranked. getIntent (serve (ok sentiment_negative) (ok intents_tied)) ''hi'' = Inr ranked
         \<and> mset ranked = mset (map2 (\<lambda>l r. \<lparr>label = l, score = Some r\<rparr>)
              [Str ''refund'', Str ''praise'', Str ''bug_report'', Str ''question'']
              [0.2, 0.9, 0.6, 0.9])
         \<and> sorted_wrt score_ge ranked
         \<and> (\<forall>k. filter (\<lambda>e. score e = k) ranked
               = filter (\<lambda>e. score e = k) (map2 (\<lambda>l r. \<lparr>label = l, score = Some r\<rparr>)
                   [Str ''refund'', Str ''praise'', Str ''bug_report'', Str ''question'']
                   [0.2, 0.9, 0.6, 0.9])))
   \<and> getIntent (serve (ok sentiment_negative) (ok intents_tied)) ''hi''
       = Inr [\<lparr>label = Str ''praise'', score = Some 0.9\<rparr>, \<lparr>label = Str ''question'', score = Some 0.9\<rparr>,
              \<lparr>label = Str ''bug_report'', score = Some 0.6\<rparr>, \<lparr>label = Str ''refund'', score = Some 0.2\<rparr>]"
proof -
  let ?r = "serve (ok sentiment_negative) (ok intents_tied)"
  let ?ls = "[Str ''refund'', Str ''praise'', Str ''bug_report'', Str ''question'']"
  let ?rs = "[0.2, 0.9, 0.6, 0.9 :: real]"
  let ?kvs = "[(''labels'', Arr ?ls), (''scores'', Arr [Num 0.2, Num 0.9, Num 0.6, Num 0.9])]"
  have c: "callModel ?r INTENT_MODEL (intent_payload ''hi'') = Inr (Obj ?kvs)"
    using callModel_serve(2) [of "ok sentiment_negative" intents_tied]
    by (simp add: intents_tied_def)
  have l: "map_of ?kvs ''labels'' = Some (Arr ?ls)"
    by simp
  have s: "map_of ?kvs ''scores'' = Some (Arr (map Num ?rs))"
    by simp
  have n: "length ?ls \<le> length ?rs"
    by simp
  have run: "getIntent ?r ''hi''
       = Inr [\<lparr>label = Str ''praise'', score = Some 0.9\<rparr>, \<lparr>label = Str ''question'', score = Some 0.9\<rparr>,
              \<lparr>label = Str ''bug_report'', score = Some 0.6\<rparr>, \<lparr>label = Str ''refund'', score = Some 0.2\<rparr>]"
    using c by (simp add: getIntent_def and_then_def ranked_of_def get_prop_def or_empty_def
        elem_at_def by_score_desc_def)
  show ?thesis
    using getIntent_sorted_stable [OF c l s n] n run by blast
qed

text \<open>
  C4, as the code has it. \<^verbatim>\<open>getIntent\<close> makes one entry for every label and gives it
  the score at the label's index. A response without labels gives no entries. A
  response whose scores are absent, or fewer than its labels, gives an entry for
  every label all the same, without error: the labels beyond the scores get an
  undefined score, as many entries as there are labels too many. Scores beyond the
  labels are dropped. (The scores that are there are numbers.)
\<close>

theorem getIntent_pairs_by_label:
  assumes "callModel remote INTENT_MODEL (intent_payload text) = Inr (Obj kvs)"
  shows "(map_of kvs ''labels'' = None \<longrightarrow> getIntent remote text = Inr [])
       \<and> (map_of kvs ''labels'' = Some (Arr ls)
            \<and> (map_of kvs ''scores'' = Some (Arr (map Num rs))
                 \<or> (map_of kvs ''scores'' = None \<and> rs = []))
          \<longrightarrow> (\<exists>ranked. getIntent remote text = Inr ranked
                 \<and> mset ranked = mset (paired ls rs)
                 \<and> length ranked = length ls
                 \<and> length (filter (\<lambda>e. score e = None) ranked) = length ls - length rs))"
proof (intro conjI impI)
  assume "map_of kvs ''labels'' = None"
  then show "getIntent remote text = Inr []"
    using assms by (simp add: getIntent_def and_then_def ranked_of_no_labels)
next
  assume a: "map_of kvs ''labels'' = Some (Arr ls)
            \<and> (map_of kvs ''scores'' = Some (Arr (map Num rs))
                 \<or> (map_of kvs ''scores'' = None \<and> rs = []))"
  let ?r = "array_sort by_score_desc (paired ls rs)"
  have run: "getIntent remote text = Inr ?r"
    using assms a by (simp add: getIntent_def and_then_def ranked_of_numbers)
  have m: "mset ?r = mset (paired ls rs)"
    by (rule mset_array_sort)
  have "length ?r = length (paired ls rs)"
    using m by (metis size_mset)
  then have l: "length ?r = length ls"
    by (simp add: length_paired)
  have "length (filter (\<lambda>e. score e = None) ?r) = length (filter (\<lambda>e. score e = None) (paired ls rs))"
    by (simp add: stable_array_sort)
  then have "length (filter (\<lambda>e. score e = None) ?r) = length ls - length rs"
    by (simp add: missing_paired)
  with run m l show "\<exists>ranked. getIntent remote text = Inr ranked
                 \<and> mset ranked = mset (paired ls rs)
                 \<and> length ranked = length ls
                 \<and> length (filter (\<lambda>e. score e = None) ranked) = length ls - length rs"
    by simp
qed

theorem getIntent_pairs_by_label_witness:
  "getIntent (serve (ok sentiment_negative) (ok intents_no_labels)) ''hi'' = Inr []
   \<and> (\<exists>ranked. getIntent (serve (ok sentiment_negative) (ok intents_short_scores)) ''hi'' = Inr ranked
         \<and> mset ranked = mset (paired [Str ''refund'', Str ''praise''] [0.9])
         \<and> length ranked = 2
         \<and> length (filter (\<lambda>e. score e = None) ranked) = 1)
   \<and> (\<exists>ranked. getIntent (serve (ok sentiment_negative) (ok intents_no_scores)) ''hi'' = Inr ranked
         \<and> mset ranked = mset (paired [Str ''refund''] [])
         \<and> length ranked = 1
         \<and> length (filter (\<lambda>e. score e = None) ranked) = 1)"
proof -
  let ?s = "ok sentiment_negative"
  let ?k0 = "[(''scores'', Arr [Num 0.9])]"
  let ?k1 = "[(''labels'', Arr [Str ''refund'', Str ''praise'']), (''scores'', Arr [Num 0.9])]"
  let ?k2 = "[(''labels'', Arr [Str ''refund''])]"
  have c0: "callModel (serve ?s (ok intents_no_labels)) INTENT_MODEL (intent_payload ''hi'') = Inr (Obj ?k0)"
    using callModel_serve(2) [of ?s intents_no_labels] by (simp add: intents_no_labels_def)
  have c1: "callModel (serve ?s (ok intents_short_scores)) INTENT_MODEL (intent_payload ''hi'') = Inr (Obj ?k1)"
    using callModel_serve(2) [of ?s intents_short_scores] by (simp add: intents_short_scores_def)
  have c2: "callModel (serve ?s (ok intents_no_scores)) INTENT_MODEL (intent_payload ''hi'') = Inr (Obj ?k2)"
    using callModel_serve(2) [of ?s intents_no_scores] by (simp add: intents_no_scores_def)
  have "getIntent (serve ?s (ok intents_no_labels)) ''hi'' = Inr []"
    using getIntent_pairs_by_label [OF c0] by simp
  moreover have "\<exists>ranked. getIntent (serve ?s (ok intents_short_scores)) ''hi'' = Inr ranked
         \<and> mset ranked = mset (paired [Str ''refund'', Str ''praise''] [0.9])
         \<and> length ranked = 2
         \<and> length (filter (\<lambda>e. score e = None) ranked) = 1"
    using getIntent_pairs_by_label [OF c1, of "[Str ''refund'', Str ''praise'']" "[0.9]"]
    by (simp add: numeral_2_eq_2)
  moreover have "\<exists>ranked. getIntent (serve ?s (ok intents_no_scores)) ''hi'' = Inr ranked
         \<and> mset ranked = mset (paired [Str ''refund''] [])
         \<and> length ranked = 1
         \<and> length (filter (\<lambda>e. score e = None) ranked) = 1"
    using getIntent_pairs_by_label [OF c2, of "[Str ''refund'']" "[]"] by simp
  ultimately show ?thesis by blast
qed

text \<open>C4 as stated fails: with two labels and one score the result has two entries, not
  one, and the second has no score; with no scores at all the label still gets its
  entry.\<close>

theorem getIntent_truncation_counterexample:
  "getIntent (serve (ok sentiment_negative) (ok intents_short_scores)) ''hi''
     = Inr [\<lparr>label = Str ''refund'', score = Some 0.9\<rparr>, \<lparr>label = Str ''praise'', score = None\<rparr>]
   \<and> getIntent (serve (ok sentiment_negative) (ok intents_no_scores)) ''hi''
     = Inr [\<lparr>label = Str ''refund'', score = None\<rparr>]"
  by (simp add: getIntent_def callModel_serve and_then_def intents_short_scores_def
      intents_no_scores_def ranked_of_def get_prop_def or_empty_def elem_at_def by_score_desc_def)

section \<open>The analysis pipeline\<close>

lemma getSentiment_negative:
  "getSentiment (serve (ok sentiment_negative) i) t = Inr \<lparr>label = Str ''negative'', score = Some 0.9\<rparr>"
  by (simp add: getSentiment_def callModel_serve and_then_def sentiment_negative_def unwrap_def
      top_of_def elem_at_def better_def get_prop_def)

lemma getIntent_refund:
  "getIntent (serve s (ok intents_refund)) t =
     Inr [\<lparr>label = Str ''refund'', score = Some 0.9\<rparr>, \<lparr>label = Str ''bug_report'', score = Some 0.8\<rparr>,
          \<lparr>label = Str ''complaint'', score = Some 0.3\<rparr>, \<lparr>label = Str ''cancel_order'', score = Some 0.2\<rparr>,
          \<lparr>label = Str ''question'', score = Some 0.1\<rparr>, \<lparr>label = Str ''greeting'', score = Some 0.05\<rparr>]"
  by (simp add: getIntent_def callModel_serve and_then_def intents_refund_def ranked_of_def
      get_prop_def or_empty_def elem_at_def by_score_desc_def)

text \<open>
  C6. A failure of the model client in the sentiment call is the failure of
  \<^verbatim>\<open>analyze\<close>, unchanged; so is a failure in the intent call, which is made once the
  sentiment has been extracted. A response whose status is not 2xx makes the client
  fail with the error that carries the status and the body. Whenever either call
  fails, \<^verbatim>\<open>analyze\<close> returns no result.
\<close>

theorem analyze_propagates_failure:
  "(callModel remote SENTIMENT_MODEL (Obj [(''inputs'', Str text)]) = Inl e
      \<longrightarrow> analyze remote text = Inl e)
   \<and> (getSentiment remote text = Inr sent
        \<and> callModel remote INTENT_MODEL (intent_payload text) = Inl e
      \<longrightarrow> analyze remote text = Inl e)
   \<and> (remote (HF_URL @ ''/hf-inference/models/'' @ model) payload = Response status body json
        \<and> \<not> (200 \<le> status \<and> status \<le> 299)
      \<longrightarrow> callModel remote model payload = Inl (HttpError status body))
   \<and> ((\<exists>e1. callModel remote SENTIMENT_MODEL (Obj [(''inputs'', Str text)]) = Inl e1)
        \<or> (\<exists>e2. callModel remote INTENT_MODEL (intent_payload text) = Inl e2)
      \<longrightarrow> (\<forall>res. analyze remote text \<noteq> Inr res))"
proof (intro conjI impI)
  assume "callModel remote SENTIMENT_MODEL (Obj [(''inputs'', Str text)]) = Inl e"
  then show "analyze remote text = Inl e"
    by (simp add: analyze_def getSentiment_def and_then_def)
next
  assume "getSentiment remote text = Inr sent
        \<and> callModel remote INTENT_MODEL (intent_payload text) = Inl e"
  then show "analyze remote text = Inl e"
    by (simp add: analyze_def getIntent_def and_then_def)
next
  assume "remote (HF_URL @ ''/hf-inference/models/'' @ model) payload = Response status body json
        \<and> \<not> (200 \<le> status \<and> status \<le> 299)"
  then show "callModel remote model payload = Inl (HttpError status body)"
    by (simp add: callModel_def)
next
  assume "(\<exists>e1. callModel remote SENTIMENT_MODEL (Obj [(''inputs'', Str text)]) = Inl e1)
        \<or> (\<exists>e2. callModel remote INTENT_MODEL (intent_payload text) = Inl e2)"
  then show "\<forall>res. analyze remote text \<noteq> Inr res"
    by (auto simp add: analyze_def getSentiment_def getIntent_def and_then_def split: sum.splits)
qed

text \<open>The spec's example P9: a status 500, in the first call and in the second.\<close>

theorem analyze_propagates_failure_witness:
  "analyze (serve (Response 500 ''Internal Server Error'' None) (ok intents_refund)) ''hi''
     = Inl (HttpError 500 ''Internal Server Error'')
   \<and> getSentiment (serve (ok sentiment_negative) (Response 500 ''Internal Server Error'' None)) ''hi''
     = Inr \<lparr>label = Str ''negative'', score = Some 0.9\<rparr>
   \<and> analyze (serve (ok sentiment_negative) (Response 500 ''Internal Server Error'' None)) ''hi''
     = Inl (HttpError 500 ''Internal Server Error'')
   \<and> (\<forall>res. analyze (serve (ok sentiment_negative) (Response 500 ''Internal Server Error'' None)) ''hi''
         \<noteq> Inr res)"
proof -
  let ?down = "Response 500 ''Internal Server Error'' None"
  let ?e = "HttpError 500 ''Internal Server Error''"
  let ?r1 = "serve ?down (ok intents_refund)"
  let ?r2 = "serve (ok sentiment_negative) ?down"
  have c1: "callModel ?r1 SENTIMENT_MODEL (Obj [(''inputs'', Str ''hi'')]) = Inl ?e"
    by (rule callModel_serve)
  have c2: "callModel ?r2 INTENT_MODEL (intent_payload ''hi'') = Inl ?e"
    by (rule callModel_serve)
  have s2: "getSentiment ?r2 ''hi'' = Inr \<lparr>label = Str ''negative'', score = Some 0.9\<rparr>"
    by (rule getSentiment_negative)
  have "analyze ?r1 ''hi'' = Inl ?e"
    using analyze_propagates_failure [of ?r1 "''hi''" ?e] c1 by blast
  moreover have "analyze ?r2 ''hi'' = Inl ?e"
    using analyze_propagates_failure [of ?r2 "''hi''" ?e "\<lparr>label = Str ''negative'', score = Some 0.9\<rparr>"] c2 s2
    by blast
  moreover have "\<forall>res. analyze ?r2 ''hi'' \<noteq> Inr res"
    using analyze_propagates_failure [of ?r2 "''hi''"] c2 by blast
  ultimately show ?thesis using s2 by simp
qed

text \<open>
  C8. When both sub-calls return, \<^verbatim>\<open>analyze\<close> returns the record of the text it was
  given, the sentiment result as it is, the first five ranked intents (all of them
  if there are fewer) and the bucket of the sentiment label and the whole ranked
  list.
\<close>

theorem analyze_assembles_result:
  "getSentiment remote text = Inr sent \<Longrightarrow> getIntent remote text = Inr intents \<Longrightarrow>
   analyze remote text =
     Inr \<lparr>input = text, sentiment = sent, intents_ranked = take 5 intents,
          feedback_bucket = getFeedbackBucket (label sent) intents\<rparr>"
  by (simp add: analyze_def and_then_def)

text \<open>The spec's example P7, with six ranked intents.\<close>

theorem analyze_assembles_result_witness:
  "analyze (serve (ok sentiment_negative) (ok intents_refund)) ''I want a refund, this is broken''
     = Inr \<lparr>input = ''I want a refund, this is broken'',
            sentiment = \<lparr>label = Str ''negative'', score = Some 0.9\<rparr>,
            intents_ranked =
              [\<lparr>label = Str ''refund'', score = Some 0.9\<rparr>, \<lparr>label = Str ''bug_report'', score = Some 0.8\<rparr>,
               \<lparr>label = Str ''complaint'', score = Some 0.3\<rparr>, \<lparr>label = Str ''cancel_order'', score = Some 0.2\<rparr>,
               \<lparr>label = Str ''question'', score = Some 0.1\<rparr>],
            feedback_bucket = ''complaint''\<rparr>"
proof -
  let ?r = "serve (ok sentiment_negative) (ok intents_refund)"
  let ?t = "''I want a refund, this is broken''"
  have s: "getSentiment ?r ?t = Inr \<lparr>label = Str ''negative'', score = Some 0.9\<rparr>"
    by (rule getSentiment_negative)
  have i: "getIntent ?r ?t =
     Inr [\<lparr>label = Str ''refund'', score = Some 0.9\<rparr>, \<lparr>label = Str ''bug_report'', score = Some 0.8\<rparr>,
          \<lparr>label = Str ''complaint'', score = Some 0.3\<rparr>, \<lparr>label = Str ''cancel_order'', score = Some 0.2\<rparr>,
          \<lparr>label = Str ''question'', score = Some 0.1\<rparr>, \<lparr>label = Str ''greeting'', score = Some 0.05\<rparr>]"
    by (rule getIntent_refund)
  show ?thesis
    using analyze_assembles_result [OF s i]
    by (simp add: getFeedbackBucket_def js_includes_def)
qed

subsection \<open>Two runs\<close>

text \<open>With a service that has no state and the sort of the model, a run is \<^verbatim>\<open>analyze\<close> as
  defined above.\<close>

lemma callModel_read:
  "callModel remote model payload =
     read_response (remote (HF_URL @ ''/hf-inference/models/'' @ model) payload)"
  by (simp add: callModel_def read_response_def)

lemma ranked_with_array_sort: "ranked_with array_sort data = ranked_of data"
  by (simp add: ranked_with_def ranked_of_def)

lemma analyze_run_stateless:
  "outcome (analyze_run array_sort (stateless remote) text st) = analyze remote text"
  by (simp add: outcome_def analyze_run_def getSentiment_run_def getIntent_run_def
      callModel_run_def stateless_def analyze_def getSentiment_def getIntent_def callModel_read
      ranked_with_array_sort and_then_def split: sum.splits)

lemma getSentiment_run_reply:
  assumes "svc w (HF_URL @ ''/hf-inference/models/'' @ SENTIMENT_MODEL)
             (Obj [(''inputs'', Str text)]) = (a, w')"
  shows "getSentiment_run svc text (w, seen) =
           (and_then (read_response a) (\<lambda>data. top_of (unwrap data)), (w', seen @ [a]))"
  using assms by (simp add: getSentiment_run_def callModel_run_def)

lemma getIntent_run_reply:
  assumes "svc w (HF_URL @ ''/hf-inference/models/'' @ INTENT_MODEL) (intent_payload text) = (b, w')"
  shows "getIntent_run srt svc text (w, seen) =
           (and_then (read_response b) (ranked_with srt), (w', seen @ [b]))"
  using assms by (simp add: getIntent_run_def callModel_run_def)

text \<open>A run receives one reply and fails on it, or receives two; what it returns or
  throws is computed from the replies alone.\<close>

lemma analyze_run_log:
  "\<exists>a w'. (\<exists>e. and_then (read_response a) (\<lambda>data. top_of (unwrap data)) = Inl e
              \<and> analyze_run srt svc text (w, []) = (Inl e, (w', [a])))
         \<or> (\<exists>sent b w''. and_then (read_response a) (\<lambda>data. top_of (unwrap data)) = Inr sent
              \<and> analyze_run srt svc text (w, []) =
                  (and_then (and_then (read_response b) (ranked_with srt))
                     (\<lambda>intents. Inr (assemble text sent intents)), (w'', [a, b])))"
proof -
  obtain a w' where a: "svc w (HF_URL @ ''/hf-inference/models/'' @ SENTIMENT_MODEL)
      (Obj [(''inputs'', Str text)]) = (a, w')"
    by (cases "svc w (HF_URL @ ''/hf-inference/models/'' @ SENTIMENT_MODEL)
          (Obj [(''inputs'', Str text)])")
  obtain b w'' where b: "svc w' (HF_URL @ ''/hf-inference/models/'' @ INTENT_MODEL)
      (intent_payload text) = (b, w'')"
    by (cases "svc w' (HF_URL @ ''/hf-inference/models/'' @ INTENT_MODEL) (intent_payload text)")
  show ?thesis
  proof (cases "and_then (read_response a) (\<lambda>data. top_of (unwrap data))")
    case (Inl e)
    then have "analyze_run srt svc text (w, []) = (Inl e, (w', [a]))"
      by (simp add: analyze_run_def getSentiment_run_reply [of svc w "text" a w', OF a])
    with Inl show ?thesis by blast
  next
    case (Inr sent)
    then have "analyze_run srt svc text (w, []) =
                  (and_then (and_then (read_response b) (ranked_with srt))
                     (\<lambda>intents. Inr (assemble text sent intents)), (w'', [a, b]))"
      by (simp add: analyze_run_def getSentiment_run_reply [of svc w "text" a w', OF a]
          getIntent_run_reply [of svc w' "text" b w'', OF b]
          assemble_def and_then_def split: sum.splits)
    with Inr show ?thesis by blast
  qed
qed

text \<open>The replies matter: against a service that answers its first two requests and no
  more, the second of two runs in a row throws where the first returned.\<close>

lemma second_run_differs_when_replies_differ:
  "outcome (analyze_run array_sort
      (failing_after 2 (serve (ok sentiment_negative) (ok intents_refund))) ''hi'' (0, []))
     \<noteq> outcome (analyze_run array_sort
      (failing_after 2 (serve (ok sentiment_negative) (ok intents_refund))) ''hi'' (2, []))"
  by (simp add: outcome_def analyze_run_def getSentiment_run_def getIntent_run_def
      callModel_run_def failing_after_def read_response_def serve_def ok_def and_then_def
      sentiment_negative_def intents_refund_def unwrap_def top_of_def elem_at_def better_def
      get_prop_def ranked_with_def or_empty_def by_score_desc_def
      SENTIMENT_MODEL_def INTENT_MODEL_def)

text \<open>
  C9. Two runs of \<^verbatim>\<open>analyze\<close> on the same text that receive identical replies from the
  remote have identical outcomes: the same record, or the same error. The runs may
  start in different states of the service, as the second of two calls in a row
  does, and even against different services; the engine's sort may be any.
\<close>

theorem analyze_runs_agree:
  "replies_seen (analyze_run srt svc1 text (w1, []))
     = replies_seen (analyze_run srt svc2 text (w2, []))
   \<Longrightarrow> outcome (analyze_run srt svc1 text (w1, []))
     = outcome (analyze_run srt svc2 text (w2, []))"
  unfolding replies_seen_def outcome_def
  using analyze_run_log [of srt svc1 "text" w1] analyze_run_log [of srt svc2 "text" w2]
  by (elim exE disjE conjE) simp_all

text \<open>The spec's example P8: \<^verbatim>\<open>analyze\<close> called twice in a row against a service that
  counts its requests. The second run starts in the state the first has left, which
  is another state than the first started in; both receive the same two replies and
  return the same record.\<close>

theorem analyze_runs_agree_witness:
  "world_after (analyze_run array_sort
      (counting (serve (ok sentiment_negative) (ok intents_refund))) ''hi'' (0, [])) = 2
   \<and> replies_seen (analyze_run array_sort
        (counting (serve (ok sentiment_negative) (ok intents_refund))) ''hi'' (0, []))
     = replies_seen (analyze_run array_sort
        (counting (serve (ok sentiment_negative) (ok intents_refund))) ''hi'' (2, []))
   \<and> outcome (analyze_run array_sort
        (counting (serve (ok sentiment_negative) (ok intents_refund))) ''hi'' (0, []))
     = Inr \<lparr>input = ''hi'',
            sentiment = \<lparr>label = Str ''negative'', score = Some 0.9\<rparr>,
            intents_ranked =
              [\<lparr>label = Str ''refund'', score = Some 0.9\<rparr>, \<lparr>label = Str ''bug_report'', score = Some 0.8\<rparr>,
               \<lparr>label = Str ''complaint'', score = Some 0.3\<rparr>, \<lparr>label = Str ''cancel_order'', score = Some 0.2\<rparr>,
               \<lparr>label = Str ''question'', score = Some 0.1\<rparr>],
            feedback_bucket = ''complaint''\<rparr>
   \<and> outcome (analyze_run array_sort
        (counting (serve (ok sentiment_negative) (ok intents_refund))) ''hi'' (2, []))
     = Inr \<lparr>input = ''hi'',
            sentiment = \<lparr>label = Str ''negative'', score = Some 0.9\<rparr>,
            intents_ranked =
              [\<lparr>label = Str ''refund'', score = Some 0.9\<rparr>, \<lparr>label = Str ''bug_report'', score = Some 0.8\<rparr>,
               \<lparr>label = Str ''complaint'', score = Some 0.3\<rparr>, \<lparr>label = Str ''cancel_order'', score = Some 0.2\<rparr>,
               \<lparr>label = Str ''question'', score = Some 0.1\<rparr>],
            feedback_bucket = ''complaint''\<rparr>"
proof -
  let ?svc = "counting (serve (ok sentiment_negative) (ok intents_refund))"
  let ?run1 = "analyze_run array_sort ?svc ''hi'' (0, [])"
  let ?run2 = "analyze_run array_sort ?svc ''hi'' (2, [])"
  have first: "?run1 =
      (Inr \<lparr>input = ''hi'',
            sentiment = \<lparr>label = Str ''negative'', score = Some 0.9\<rparr>,
            intents_ranked =
              [\<lparr>label = Str ''refund'', score = Some 0.9\<rparr>, \<lparr>label = Str ''bug_report'', score = Some 0.8\<rparr>,
               \<lparr>label = Str ''complaint'', score = Some 0.3\<rparr>, \<lparr>label = Str ''cancel_order'', score = Some 0.2\<rparr>,
               \<lparr>label = Str ''question'', score = Some 0.1\<rparr>],
            feedback_bucket = ''complaint''\<rparr>,
       (2, [ok sentiment_negative, ok intents_refund]))"
    by (simp add: analyze_run_def getSentiment_run_def getIntent_run_def
      callModel_run_def counting_def read_response_def serve_def ok_def and_then_def
      sentiment_negative_def intents_refund_def unwrap_def top_of_def elem_at_def better_def
      get_prop_def ranked_with_def or_empty_def by_score_desc_def getFeedbackBucket_def
      js_includes_def SENTIMENT_MODEL_def INTENT_MODEL_def numeral_2_eq_2)
  have seen2: "replies_seen ?run2 = [ok sentiment_negative, ok intents_refund]"
    by (simp add: replies_seen_def analyze_run_def getSentiment_run_def getIntent_run_def
      callModel_run_def counting_def read_response_def serve_def ok_def and_then_def
      sentiment_negative_def intents_refund_def unwrap_def top_of_def elem_at_def better_def
      get_prop_def ranked_with_def or_empty_def by_score_desc_def
      SENTIMENT_MODEL_def INTENT_MODEL_def)
  have same: "replies_seen ?run1 = replies_seen ?run2"
    using first seen2 by (simp add: replies_seen_def)
  have "outcome ?run1 = outcome ?run2"
    using analyze_runs_agree [OF same] .
  then show ?thesis
    using first same by (simp add: outcome_def world_after_def)
qed

end
